theory Spec2Isabelle
  imports Main "HOL-Library.Sublist"
begin

section \<open>Python values: text, bytes and exceptions\<close>

text \<open>
  A Python \<open>str\<close> is a sequence of code points and a \<open>bytes\<close> object a sequence of
  numbers below 256; both are lists of naturals here. A raised exception is the left
  summand of a result.
\<close>

type_synonym pystr = "nat list"
type_synonym pybytes = "nat list"

datatype py_error = UnicodeEncodeError | UnicodeDecodeError | BinasciiError | ValueError

text \<open>The code points of an ASCII literal of the source.\<close>

definition str :: "string \<Rightarrow> pystr" where
  "str s = map of_char s"

fun bind_err :: "'e + 'a \<Rightarrow> ('a \<Rightarrow> 'e + 'b) \<Rightarrow> 'e + 'b" where
  "bind_err (Inl e) f = Inl e"
| "bind_err (Inr x) f = f x"

subsection \<open>\<open>str.encode()\<close> and \<open>bytes.decode()\<close>: strict UTF-8\<close>

definition surrogate :: "nat \<Rightarrow> bool" where
  "surrogate c = (0xD800 \<le> c \<and> c < 0xE000)"

text \<open>
  The code points that \<open>encode()\<close> accepts: the Unicode scalar values. A \<open>str\<close> may hold
  a lone surrogate (such as U+D800), on which \<open>encode()\<close> raises.
\<close>

definition scalar :: "nat \<Rightarrow> bool" where
  "scalar c = (c < 0xD800 \<or> (0xE000 \<le> c \<and> c < 0x110000))"

definition encode_cp :: "nat \<Rightarrow> py_error + pybytes" where
  "encode_cp c =
     (if c < 0x80 then Inr [c]
      else if c < 0x800 then Inr [0xC0 + c div 64, 0x80 + c mod 64]
      else if surrogate c then Inl UnicodeEncodeError
      else if c < 0x10000 then
        Inr [0xE0 + c div 4096, 0x80 + c div 64 mod 64, 0x80 + c mod 64]
      else if c < 0x110000 then
        Inr [0xF0 + c div 262144, 0x80 + c div 4096 mod 64, 0x80 + c div 64 mod 64,
             0x80 + c mod 64]
      else Inl UnicodeEncodeError)"

fun str_encode :: "pystr \<Rightarrow> py_error + pybytes" where
  "str_encode [] = Inr []"
| "str_encode (c # cs) =
     bind_err (encode_cp c) (\<lambda>bs. bind_err (str_encode cs) (\<lambda>r. Inr (bs @ r)))"

definition cont :: "nat \<Rightarrow> bool" where
  "cont b = (0x80 \<le> b \<and> b < 0xC0)"

fun bytes_decode :: "pybytes \<Rightarrow> py_error + pystr" where
  "bytes_decode [] = Inr []"
| "bytes_decode (b0 # bs) =
     (if b0 < 0x80 then bind_err (bytes_decode bs) (\<lambda>cs. Inr (b0 # cs))
      else if 0xC2 \<le> b0 \<and> b0 < 0xE0 then
        (case bs of
           b1 # r \<Rightarrow>
             if cont b1
             then bind_err (bytes_decode r)
                    (\<lambda>cs. Inr (((b0 - 0xC0) * 64 + (b1 - 0x80)) # cs))
             else Inl UnicodeDecodeError
         | _ \<Rightarrow> Inl UnicodeDecodeError)
      else if 0xE0 \<le> b0 \<and> b0 < 0xF0 then
        (case bs of
           b1 # b2 # r \<Rightarrow>
             if cont b1 \<and> cont b2
                \<and> 0x800 \<le> (b0 - 0xE0) * 4096 + (b1 - 0x80) * 64 + (b2 - 0x80)
                \<and> scalar ((b0 - 0xE0) * 4096 + (b1 - 0x80) * 64 + (b2 - 0x80))
             then bind_err (bytes_decode r)
                    (\<lambda>cs. Inr (((b0 - 0xE0) * 4096 + (b1 - 0x80) * 64 + (b2 - 0x80)) # cs))
             else Inl UnicodeDecodeError
         | _ \<Rightarrow> Inl UnicodeDecodeError)
      else if 0xF0 \<le> b0 \<and> b0 < 0xF5 then
        (case bs of
           b1 # b2 # b3 # r \<Rightarrow>
             if cont b1 \<and> cont b2 \<and> cont b3
                \<and> 0x10000 \<le> (b0 - 0xF0) * 262144 + (b1 - 0x80) * 4096 + (b2 - 0x80) * 64
                              + (b3 - 0x80)
                \<and> (b0 - 0xF0) * 262144 + (b1 - 0x80) * 4096 + (b2 - 0x80) * 64
                     + (b3 - 0x80) < 0x110000
             then bind_err (bytes_decode r)
                    (\<lambda>cs. Inr (((b0 - 0xF0) * 262144 + (b1 - 0x80) * 4096 + (b2 - 0x80) * 64
                                  + (b3 - 0x80)) # cs))
             else Inl UnicodeDecodeError
         | _ \<Rightarrow> Inl UnicodeDecodeError)
      else Inl UnicodeDecodeError)"

subsection \<open>\<open>base64.b64encode\<close> and \<open>base64.b64decode\<close>\<close>

text \<open>
  The standard alphabet (\<open>A-Z\<close>, \<open>a-z\<close>, \<open>0-9\<close>, \<open>+\<close>, \<open>/\<close>) as the character of a
  six-bit value and back; \<open>=\<close> (61) pads.
\<close>

definition b64_char :: "nat \<Rightarrow> nat" where
  "b64_char i =
     (if i < 26 then 65 + i else if i < 52 then 71 + i else if i < 62 then i - 4
      else if i = 62 then 43 else 47)"

definition b64_value :: "nat \<Rightarrow> nat option" where
  "b64_value ch =
     (if 65 \<le> ch \<and> ch \<le> 90 then Some (ch - 65)
      else if 97 \<le> ch \<and> ch \<le> 122 then Some (ch - 71)
      else if 48 \<le> ch \<and> ch \<le> 57 then Some (ch + 4)
      else if ch = 43 then Some 62
      else if ch = 47 then Some 63
      else None)"

fun b64encode :: "pybytes \<Rightarrow> pybytes" where
  "b64encode [] = []"
| "b64encode [a] = [b64_char (a div 4), b64_char (a mod 4 * 16), 61, 61]"
| "b64encode [a, b] =
     [b64_char (a div 4), b64_char (a mod 4 * 16 + b div 16), b64_char (b mod 16 * 4), 61]"
| "b64encode (a # b # c # r) =
     [b64_char (a div 4), b64_char (a mod 4 * 16 + b div 16),
      b64_char (b mod 16 * 4 + c div 64), b64_char (c mod 64)] @ b64encode r"

text \<open>
  The decoder of \<open>binascii.a2b_base64\<close> outside strict mode, which \<open>b64decode\<close> calls:
  one pass with the position in the current group of four (\<open>quad_pos\<close>), the bits left
  over (\<open>leftchar\<close>) and the padding seen (\<open>pads\<close>). A character outside the alphabet is
  skipped, padding that completes a group ends the input, and an incomplete group at the
  end raises \<open>binascii.Error\<close>.
\<close>

fun a2b_base64 :: "nat \<Rightarrow> nat \<Rightarrow> nat \<Rightarrow> pybytes \<Rightarrow> py_error + pybytes" where
  "a2b_base64 quad_pos leftchar pads [] =
     (if quad_pos = 0 then Inr [] else Inl BinasciiError)"
| "a2b_base64 quad_pos leftchar pads (ch # cs) =
     (if ch = 61 then
        (if 2 \<le> quad_pos \<and> 4 \<le> quad_pos + (pads + 1) then Inr []
         else a2b_base64 quad_pos leftchar (if 2 \<le> quad_pos then pads + 1 else pads) cs)
      else
        (case b64_value ch of
           None \<Rightarrow> a2b_base64 quad_pos leftchar pads cs
         | Some v \<Rightarrow>
             if quad_pos = 0 then a2b_base64 1 v 0 cs
             else if quad_pos = 1 then
               bind_err (a2b_base64 2 (v mod 16) 0 cs)
                 (\<lambda>r. Inr ((leftchar * 4 + v div 16) # r))
             else if quad_pos = 2 then
               bind_err (a2b_base64 3 (v mod 4) 0 cs)
                 (\<lambda>r. Inr ((leftchar * 16 + v div 4) # r))
             else
               bind_err (a2b_base64 0 0 0 cs) (\<lambda>r. Inr ((leftchar * 64 + v) # r))))"

text \<open>
  \<open>b64decode\<close> of a \<open>str\<close> first encodes it as ASCII and raises \<open>ValueError\<close> on a
  character beyond it.
\<close>

definition b64decode :: "pystr \<Rightarrow> py_error + pybytes" where
  "b64decode s = (if list_all (\<lambda>c. c < 128) s then a2b_base64 0 0 0 s else Inl ValueError)"

subsection \<open>\<open>str.startswith\<close>, \<open>str.split\<close>\<close>

definition startswith :: "pystr \<Rightarrow> pystr \<Rightarrow> bool" where
  "startswith s p = (take (length p) s = p)"

text \<open>
  \<open>s.split(sep)\<close> for a separator of one character: the pieces between the
  occurrences of \<open>sep\<close>, so one piece more than there are occurrences.
\<close>

fun split_from :: "nat \<Rightarrow> pystr \<Rightarrow> pystr \<Rightarrow> pystr list" where
  "split_from sep cur [] = [cur]"
| "split_from sep cur (c # cs) =
     (if c = sep then cur # split_from sep [] cs else split_from sep (cur @ [c]) cs)"

definition str_split :: "pystr \<Rightarrow> nat \<Rightarrow> pystr list" where
  "str_split s sep = split_from sep [] s"

section \<open>MockClient\<close>

text \<open>
  \<open>MockClient\<close> of \<open>demo_complete.py\<close>; \<open>MockCrypto\<close> of \<open>test_demo.py\<close> has the same
  \<open>sign\<close>, \<open>encrypt\<close> and \<open>decrypt\<close>, line for line. The keys are the strings the
  constructor formats; \<open>hmac.new(key, msg, hashlib.sha256).hexdigest()\<close> is the parameter
  \<open>hmac_sha256\<close> of every function that signs or verifies.
\<close>

record mock_client =
  name :: pystr
  ed25519_key :: pystr
  x25519_key :: pystr
  contacts :: "pystr \<rightharpoonup> pystr"

definition encrypt :: "mock_client \<Rightarrow> pystr \<Rightarrow> pystr \<Rightarrow> py_error + pystr" where
  "encrypt self message recipient_key =
     bind_err (str_encode message) (\<lambda>raw.
     bind_err (bytes_decode (b64encode raw)) (\<lambda>encrypted.
       Inr (str ''encrypted_'' @ encrypted @ str ''_'' @ take 8 recipient_key)))"

definition decrypt :: "mock_client \<Rightarrow> pystr \<Rightarrow> pystr \<Rightarrow> py_error + pystr" where
  "decrypt self encrypted_msg sender_key =
     (if startswith encrypted_msg (str ''encrypted_'') then
        (let parts = str_split encrypted_msg 95 in
         if 3 \<le> length parts
         then bind_err (b64decode (parts ! 1)) bytes_decode
         else Inr (str ''DECRYPTION_FAILED''))
      else Inr (str ''DECRYPTION_FAILED''))"

text \<open>
  \<open>hmac.new(key.encode(), msg.encode(), hashlib.sha256).hexdigest()[:64]\<close>, as \<open>sign\<close>
  computes it from the client's key and \<open>send_message\<close> from the registered one.
\<close>

definition hmac_hexdigest64 ::
  "(pybytes \<Rightarrow> pybytes \<Rightarrow> pystr) \<Rightarrow> pystr \<Rightarrow> pystr \<Rightarrow> py_error + pystr" where
  "hmac_hexdigest64 hmac_sha256 key msg =
     bind_err (str_encode key) (\<lambda>k.
     bind_err (str_encode msg) (\<lambda>m.
       Inr (take 64 (hmac_sha256 k m))))"

definition sign ::
  "(pybytes \<Rightarrow> pybytes \<Rightarrow> pystr) \<Rightarrow> mock_client \<Rightarrow> pystr \<Rightarrow> py_error + pystr" where
  "sign hmac_sha256 self message = hmac_hexdigest64 hmac_sha256 (ed25519_key self) message"

section \<open>MockServer\<close>

text \<open>
  A stored message is the dictionary \<open>send_message\<close> builds, a field for each key
  (\<open>msg_id\<close> for \<open>"id"\<close>); a response is the dictionary returned, by its \<open>"type"\<close>.
\<close>

record message =
  msg_id :: pystr
  msg_sender_id :: pystr
  msg_recipient_id :: pystr
  msg_content :: pystr
  msg_timestamp :: pystr
  msg_signature :: pystr

record mock_server =
  clients :: "pystr \<rightharpoonup> pystr"
  messages :: "message list"

datatype response =
  Registered pystr
| Error pystr
| MessageSent pystr
| MessageReceived message

definition init_server :: mock_server where
  "init_server = \<lparr>clients = Map.empty, messages = []\<rparr>"

definition register_client :: "mock_server \<Rightarrow> pystr \<Rightarrow> pystr \<Rightarrow> response \<times> mock_server" where
  "register_client self client_id public_key =
     (Registered (str ''server_ed25519_key_abcdef1234567890''),
      self\<lparr>clients := (clients self)(client_id \<mapsto> public_key)\<rparr>)"

text \<open>
  \<open>send_message\<close> returns a response or raises, and in both cases leaves a server state:
  the pair of the outcome and the state. \<open>now\<close> is what \<open>datetime.now().isoformat()\<close>
  reads when the call is made.
\<close>

definition send_message ::
  "(pybytes \<Rightarrow> pybytes \<Rightarrow> pystr) \<Rightarrow> pystr \<Rightarrow> mock_server \<Rightarrow> pystr \<Rightarrow> pystr \<Rightarrow> pystr \<Rightarrow> pystr
     \<Rightarrow> pystr \<Rightarrow> (py_error + response) \<times> mock_server" where
  "send_message hmac_sha256 now self sender_id recipient_id encrypted_content signature
       message_id =
     (case clients self sender_id of
        None \<Rightarrow> (Inr (Error (str ''Unknown sender: '' @ sender_id)), self)
      | Some public_key \<Rightarrow>
          (case hmac_hexdigest64 hmac_sha256 public_key encrypted_content of
             Inl e \<Rightarrow> (Inl e, self)
           | Inr expected_signature \<Rightarrow>
               if signature \<noteq> expected_signature
               then (Inr (Error (str ''Invalid signature'')), self)
               else (Inr (MessageSent message_id),
                     self\<lparr>messages := messages self @
                       [\<lparr>msg_id = message_id, msg_sender_id = sender_id,
                         msg_recipient_id = recipient_id, msg_content = encrypted_content,
                         msg_timestamp = now, msg_signature = signature\<rparr>]\<rparr>)))"

text \<open>
  The comprehension \<open>[msg for msg in self.messages if msg["recipient_id"] == client_id]\<close>
  as the loop it runs: each stored message in turn, appended to the result when it is
  addressed to \<open>client_id\<close>.
\<close>

fun comprehension :: "pystr \<Rightarrow> message list \<Rightarrow> message list \<Rightarrow> message list" where
  "comprehension client_id acc [] = acc"
| "comprehension client_id acc (msg # rest) =
     comprehension client_id
       (if msg_recipient_id msg = client_id then acc @ [msg] else acc) rest"

definition get_messages_for_client :: "mock_server \<Rightarrow> pystr \<Rightarrow> message list \<times> mock_server" where
  "get_messages_for_client self client_id = (comprehension client_id [] (messages self), self)"

text \<open>
  \<open>MockServer\<close> of \<open>test_demo.py\<close> has the same \<open>register_client\<close> and \<open>send_message\<close>,
  and \<open>get_messages\<close> in place of \<open>get_messages_for_client\<close>.
\<close>

definition get_messages :: "mock_server \<Rightarrow> pystr \<Rightarrow> response \<times> mock_server" where
  "get_messages self client_id =
     (let client_messages = comprehension client_id [] (messages self) in
      if client_messages \<noteq> []
      then (MessageReceived (last client_messages), self)
      else (Error (str ''No messages found''), self))"

section \<open>The clients and the digest of the examples\<close>

text \<open>
  \<open>alice\<close> and \<open>bob\<close> with the keys \<open>MockCrypto("alice")\<close> and \<open>MockCrypto("bob")\<close> format
  in \<open>test_demo.py\<close>. The theorems hold for every digest function; the examples need one
  to run, and take the concatenation of key and message.
\<close>

definition alice :: mock_client where
  "alice = \<lparr>name = str ''alice'', ed25519_key = str ''alice_ed25519_key_1234567890abcdef'',
            x25519_key = str ''alice_x25519_key_abcdef1234567890'', contacts = Map.empty\<rparr>"

definition bob :: mock_client where
  "bob = \<lparr>name = str ''bob'', ed25519_key = str ''bob_ed25519_key_1234567890abcdef'',
          x25519_key = str ''bob_x25519_key_abcdef1234567890'', contacts = Map.empty\<rparr>"

definition example_digest :: "pybytes \<Rightarrow> pybytes \<Rightarrow> pystr" where
  "example_digest key msg = key @ msg"

text \<open>
  The server after \<open>alice\<close> and \<open>bob\<close> have registered, the envelope of \<open>"hello"\<close> for
  \<open>bob\<close> with the signature \<open>alice\<close> gives it under the digest above, and the server after
  it has accepted that envelope as \<open>msg_001\<close>.
\<close>

definition registered :: mock_server where
  "registered =
     snd (register_client (snd (register_client init_server (str ''alice'') (ed25519_key alice)))
            (str ''bob'') (ed25519_key bob))"

definition hello_envelope :: pystr where
  "hello_envelope = str ''encrypted_aGVsbG8=_bob_x255''"

definition hello_signature :: pystr where
  "hello_signature = str ''alice_ed25519_key_1234567890abcdefencrypted_aGVsbG8=_bob_x255''"

definition after_first_send :: mock_server where
  "after_first_send =
     snd (send_message example_digest (str ''2025-01-01T09:00:00'') registered (str ''alice'')
            (str ''bob'') hello_envelope hello_signature (str ''msg_001''))"

section \<open>The codecs\<close>

subsection \<open>UTF-8: decoding undoes encoding\<close>

lemma bind_err_Inr_iff:
  "bind_err r f = Inr y \<longleftrightarrow> (\<exists>x. r = Inr x \<and> f x = Inr y)"
  by (cases r) auto

lemma encode_cp_scalar:
  assumes "scalar c"
  shows "\<exists>bs. encode_cp c = Inr bs \<and> list_all (\<lambda>b. b < 256) bs"
  using assms unfolding scalar_def encode_cp_def surrogate_def
  by auto

lemma utf8_digits3: "c div 4096 * 4096 + c div 64 mod 64 * 64 + c mod 64 = (c::nat)"
proof -
  have e: "c div 4096 = c div 64 div 64" by (simp add: div_mult2_eq)
  have a: "c div 64 div 64 * 64 + c div 64 mod 64 = c div 64" by simp
  have b: "c div 64 * 64 + c mod 64 = c" by simp
  show ?thesis unfolding e using a b by linarith
qed

lemma utf8_digits4:
  "c div 262144 * 262144 + c div 4096 mod 64 * 4096 + c div 64 mod 64 * 64 + c mod 64 = (c::nat)"
proof -
  have e: "c div 262144 = c div 4096 div 64" by (simp add: div_mult2_eq)
  have a: "c div 4096 div 64 * 64 + c div 4096 mod 64 = c div 4096" by simp
  have b: "c div 4096 * 4096 + c div 64 mod 64 * 64 + c mod 64 = c" by (rule utf8_digits3)
  show ?thesis unfolding e using a b by linarith
qed

lemma decode_encode_cp:
  assumes "encode_cp c = Inr bs"
  shows "bytes_decode (bs @ r) = bind_err (bytes_decode r) (\<lambda>cs. Inr (c # cs))"
proof -
  consider (a) "c < 0x80" | (b) "0x80 \<le> c" "c < 0x800"
    | (c) "0x800 \<le> c" "c < 0x10000" "\<not> surrogate c"
    | (d) "0x10000 \<le> c" "c < 0x110000"
    using assms unfolding encode_cp_def by (auto split: if_splits)
  then show ?thesis
  proof cases
    case a
    with assms show ?thesis by (auto simp: encode_cp_def)
  next
    case b
    then have bs: "bs = [0xC0 + c div 64, 0x80 + c mod 64]"
      using assms by (auto simp: encode_cp_def)
    have "2 \<le> c div 64" "c div 64 < 32" using b by arith+
    then show ?thesis unfolding bs by (simp add: cont_def)
  next
    case c
    then have bs: "bs = [0xE0 + c div 4096, 0x80 + c div 64 mod 64, 0x80 + c mod 64]"
      using assms by (auto simp: encode_cp_def)
    have "c div 4096 < 16" using c by arith
    moreover note utf8_digits3 [of c]
    moreover have "scalar c" using c by (auto simp: scalar_def surrogate_def)
    ultimately show ?thesis unfolding bs using c by (simp add: cont_def)
  next
    case d
    then have bs: "bs = [0xF0 + c div 262144, 0x80 + c div 4096 mod 64, 0x80 + c div 64 mod 64,
             0x80 + c mod 64]"
      using assms by (auto simp: encode_cp_def surrogate_def)
    have "c div 262144 < 5" using d by arith
    moreover note utf8_digits4 [of c]
    ultimately show ?thesis unfolding bs using d by (simp add: cont_def)
  qed
qed

lemma str_encode_total:
  "list_all scalar P \<Longrightarrow> \<exists>bs. str_encode P = Inr bs \<and> list_all (\<lambda>b. b < 256) bs"
proof (induction P)
  case Nil
  then show ?case by simp
next
  case (Cons c cs)
  then obtain b1 b2 where "encode_cp c = Inr b1" "list_all (\<lambda>b. b < 256) b1"
    "str_encode cs = Inr b2" "list_all (\<lambda>b. b < 256) b2"
    using encode_cp_scalar [of c] by auto
  then show ?case by simp
qed

lemma decode_str_encode: "str_encode P = Inr bs \<Longrightarrow> bytes_decode bs = Inr P"
proof (induction P arbitrary: bs)
  case Nil
  then show ?case by simp
next
  case (Cons c cs)
  from Cons.prems obtain b1 b2 where e: "encode_cp c = Inr b1" "str_encode cs = Inr b2"
    and bs: "bs = b1 @ b2"
    by (auto simp: bind_err_Inr_iff)
  show ?case unfolding bs by (simp add: decode_encode_cp [OF e(1)] Cons.IH [OF e(2)])
qed

lemma decode_ascii: "list_all (\<lambda>c. c < 128) bs \<Longrightarrow> bytes_decode bs = Inr bs"
  by (induction bs) auto

subsection \<open>Base64: decoding undoes encoding\<close>

lemma b64_char_ascii: "b64_char i < 128 \<and> b64_char i \<noteq> 95"
  unfolding b64_char_def by auto

lemma b64encode_ascii: "list_all (\<lambda>c. c < 128 \<and> c \<noteq> 95) (b64encode bs)"
  by (induction bs rule: b64encode.induct) (simp_all add: b64_char_ascii)

lemma b64_value_char: "i < 64 \<Longrightarrow> b64_value (b64_char i) = Some i \<and> b64_char i \<noteq> 61"
  unfolding b64_value_def b64_char_def by auto

lemma a2b_quad:
  assumes "v1 < 64" "v2 < 64" "v3 < 64" "v4 < 64"
  shows "a2b_base64 0 l p (b64_char v1 # b64_char v2 # b64_char v3 # b64_char v4 # cs) =
         bind_err (a2b_base64 0 0 0 cs)
           (\<lambda>r. Inr ((v1 * 4 + v2 div 16) # (v2 mod 16 * 16 + v3 div 4) # (v3 mod 4 * 64 + v4) # r))"
  using assms by (cases "a2b_base64 0 0 0 cs") (simp_all add: b64_value_char)

lemma a2b_pad1:
  assumes "v1 < 64" "v2 < 64" "v3 < 64"
  shows "a2b_base64 0 l p [b64_char v1, b64_char v2, b64_char v3, 61] =
         Inr [v1 * 4 + v2 div 16, v2 mod 16 * 16 + v3 div 4]"
  using assms by (simp add: b64_value_char)

lemma a2b_pad2:
  assumes "v1 < 64" "v2 < 64"
  shows "a2b_base64 0 l p [b64_char v1, b64_char v2, 61, 61] = Inr [v1 * 4 + v2 div 16]"
  using assms by (simp add: b64_value_char)

lemma div_mod_digit:
  fixes x y n :: nat
  assumes "y < n"
  shows "(x * n + y) div n = x" "(x * n + y) mod n = y"
  using assms by simp_all

lemma sextets:
  fixes a b c :: nat
  assumes "a < 256" "b < 256" "c < 256"
  shows "a div 4 < 64" "a mod 4 * 16 + b div 16 < 64" "b mod 16 * 4 + c div 64 < 64"
    "c mod 64 < 64" "a mod 4 * 16 < 64" "b mod 16 * 4 < 64"
    "a div 4 * 4 + (a mod 4 * 16 + b div 16) div 16 = a"
    "(a mod 4 * 16 + b div 16) mod 16 * 16 + (b mod 16 * 4 + c div 64) div 4 = b"
    "(b mod 16 * 4 + c div 64) mod 4 * 64 + c mod 64 = c"
    "a div 4 * 4 + (a mod 4 * 16) div 16 = a"
    "(a mod 4 * 16 + b div 16) mod 16 * 16 + (b mod 16 * 4) div 4 = b"
proof -
  have a4: "a mod 4 < 4" and b16: "b mod 16 < 16" by simp_all
  have bd: "b div 16 < 16" using assms(2) by simp
  have cd: "c div 64 < 4" using assms(3) by simp
  have bm: "b div 16 mod 16 = b div 16" using bd by simp
  have cm: "c div 64 mod 4 = c div 64" using cd by simp
  show "a div 4 < 64" using assms(1) by simp
  show "a mod 4 * 16 + b div 16 < 64" using a4 bd by linarith
  show "b mod 16 * 4 + c div 64 < 64" using b16 cd by linarith
  show "c mod 64 < 64" by simp
  show "a mod 4 * 16 < 64" using a4 by linarith
  show "b mod 16 * 4 < 64" using b16 by linarith
  show "a div 4 * 4 + (a mod 4 * 16 + b div 16) div 16 = a"
    by (simp add: div_mod_digit(1) [OF bd])
  show "(a mod 4 * 16 + b div 16) mod 16 * 16 + (b mod 16 * 4 + c div 64) div 4 = b"
    by (simp add: div_mod_digit(2) [OF bd] div_mod_digit(1) [OF cd] bm)
  show "(b mod 16 * 4 + c div 64) mod 4 * 64 + c mod 64 = c"
    by (simp add: div_mod_digit(2) [OF cd] cm)
  show "a div 4 * 4 + (a mod 4 * 16) div 16 = a" by simp
  show "(a mod 4 * 16 + b div 16) mod 16 * 16 + (b mod 16 * 4) div 4 = b"
    by (simp add: div_mod_digit(2) [OF bd] bm)
qed

lemma b64_roundtrip:
  "list_all (\<lambda>b. b < 256) bs \<Longrightarrow> a2b_base64 0 0 0 (b64encode bs) = Inr bs"
proof (induction bs rule: b64encode.induct)
  case 1
  then show ?case by simp
next
  case (2 a)
  then have a: "a < 256" by simp
  show ?case using sextets [OF a a a] by (simp add: a2b_pad2 del: a2b_base64.simps)
next
  case (3 a b)
  then have a: "a < 256" and b: "b < 256" by simp_all
  show ?case using sextets [OF a b b] by (simp add: a2b_pad1 del: a2b_base64.simps)
next
  case (4 a b c r)
  then have a: "a < 256" and b: "b < 256" and c: "c < 256"
    and ih: "a2b_base64 0 0 0 (b64encode r) = Inr r" by simp_all
  show ?case using sextets [OF a b c] by (simp add: a2b_quad ih del: a2b_base64.simps)
qed

subsection \<open>Splitting at the separator\<close>

lemma split_from_eq:
  "split_from sep cur s =
     (cur @ takeWhile (\<lambda>c. c \<noteq> sep) s) #
     (case dropWhile (\<lambda>c. c \<noteq> sep) s of [] \<Rightarrow> [] | x # r \<Rightarrow> split_from sep [] r)"
  by (induction s arbitrary: cur) auto

lemma split_from_length: "1 \<le> length (split_from sep cur s)"
  by (subst split_from_eq) simp

lemma takeWhile_before_sep:
  "takeWhile (\<lambda>c. c \<noteq> sep) (b @ sep # k) = takeWhile (\<lambda>c. c \<noteq> sep) b"
  by (induction b) auto

lemma dropWhile_before_sep:
  "dropWhile (\<lambda>c. c \<noteq> sep) (b @ sep # k) = dropWhile (\<lambda>c. c \<noteq> sep) b @ sep # k"
  by (induction b) auto

lemma split_from_two:
  "\<exists>rest. rest \<noteq> [] \<and>
     split_from sep cur (b @ sep # k) = (cur @ takeWhile (\<lambda>c. c \<noteq> sep) b) # rest"
proof -
  obtain x r where d: "dropWhile (\<lambda>c. c \<noteq> sep) (b @ sep # k) = x # r"
    by (cases "dropWhile (\<lambda>c. c \<noteq> sep) (b @ sep # k)") (simp_all add: dropWhile_before_sep)
  have "split_from sep cur (b @ sep # k) =
          (cur @ takeWhile (\<lambda>c. c \<noteq> sep) b) # split_from sep [] r"
    by (subst split_from_eq) (simp add: d takeWhile_before_sep)
  moreover have "split_from sep [] r \<noteq> []"
    using split_from_length [of sep "[]" r] by auto
  ultimately show ?thesis by blast
qed

lemma str_split_envelope:
  "\<exists>rest. rest \<noteq> [] \<and>
     str_split (str ''encrypted_'' @ b @ str ''_'' @ k) 95 =
       str ''encrypted'' # takeWhile (\<lambda>c. c \<noteq> 95) b # rest"
proof -
  obtain rest where "rest \<noteq> []"
    and "split_from 95 [] (b @ 95 # k) = takeWhile (\<lambda>c. c \<noteq> 95) b # rest"
    using split_from_two [of 95 "[]" b k] by auto
  then show ?thesis by (simp add: str_split_def str_def)
qed

section \<open>Encryption and decryption of the mock client\<close>

lemma startswith_envelope: "startswith (str ''encrypted_'' @ s) (str ''encrypted_'')"
  by (simp add: startswith_def str_def)

lemma decrypt_envelope:
  "decrypt self (str ''encrypted_'' @ b @ str ''_'' @ k) sender_key =
     bind_err (b64decode (takeWhile (\<lambda>c. c \<noteq> 95) b)) bytes_decode"
proof -
  obtain rest where r: "rest \<noteq> []"
    and s: "str_split (str ''encrypted_'' @ b @ str ''_'' @ k) 95 =
       str ''encrypted'' # takeWhile (\<lambda>c. c \<noteq> 95) b # rest"
    using str_split_envelope by blast
  from r have "3 \<le> length (str ''encrypted'' # takeWhile (\<lambda>c. c \<noteq> 95) b # rest)"
    by (cases rest) simp_all
  then show ?thesis
    unfolding decrypt_def s using startswith_envelope [of "b @ str ''_'' @ k"] by simp
qed

lemma encrypt_value:
  assumes "str_encode P = Inr raw"
  shows "encrypt self P K = Inr (str ''encrypted_'' @ b64encode raw @ str ''_'' @ take 8 K)"
proof -
  have "list_all (\<lambda>c. c < 128) (b64encode raw)"
    using b64encode_ascii [of raw] by (simp add: list_all_iff)
  then show ?thesis using assms by (simp add: encrypt_def decode_ascii)
qed

lemma b64decode_b64encode:
  assumes "list_all (\<lambda>b. b < 256) raw"
  shows "b64decode (takeWhile (\<lambda>c. c \<noteq> 95) (b64encode raw)) = Inr raw"
proof -
  have a: "list_all (\<lambda>c. c < 128 \<and> c \<noteq> 95) (b64encode raw)" by (rule b64encode_ascii)
  then have tw: "takeWhile (\<lambda>c. c \<noteq> 95) (b64encode raw) = b64encode raw"
    by (simp add: list_all_iff takeWhile_eq_all_conv)
  have "list_all (\<lambda>c. c < 128) (b64encode raw)"
    using a by (simp add: list_all_iff)
  then show ?thesis unfolding tw b64decode_def using b64_roundtrip [OF assms] by simp
qed

text \<open>
  C1. Decrypting what \<open>encrypt\<close> made of a plaintext, with any sender key and by any
  client, returns that plaintext: for every plaintext that \<open>encode()\<close> accepts, that is
  every string of Unicode scalar values, \<open>encrypt\<close> returns an envelope and \<open>decrypt\<close>
  returns the plaintext from it.
\<close>

theorem encrypt_decrypt_roundtrip:
  assumes "list_all scalar P"
  shows "\<exists>c. encrypt sender P K = Inr c \<and> decrypt recipient c sender_key = Inr P"
proof -
  obtain raw where raw: "str_encode P = Inr raw" and bytes: "list_all (\<lambda>b. b < 256) raw"
    using str_encode_total [OF assms] by blast
  have "decrypt recipient (str ''encrypted_'' @ b64encode raw @ str ''_'' @ take 8 K) sender_key
          = Inr P"
    by (simp add: decrypt_envelope b64decode_b64encode [OF bytes] decode_str_encode [OF raw])
  then show ?thesis using encrypt_value [OF raw] by simp
qed

text \<open>The round trip of \<open>"hello"\<close> from \<open>alice\<close> to \<open>bob\<close>.\<close>

theorem encrypt_decrypt_roundtrip_witness:
  "list_all scalar (str ''hello'') \<and>
   (\<exists>c. encrypt alice (str ''hello'') (x25519_key bob) = Inr c \<and>
        decrypt bob c (x25519_key alice) = Inr (str ''hello''))"
  using encrypt_decrypt_roundtrip [of "str ''hello''" alice "x25519_key bob" bob "x25519_key alice"]
  by (simp add: str_def scalar_def)

text \<open>
  A plaintext with a lone surrogate, the one-character string U+D800, has no round trip:
  \<open>message.encode()\<close> raises \<open>UnicodeEncodeError\<close> in \<open>encrypt\<close>.
\<close>

theorem encrypt_surrogate_counterexample:
  "encrypt alice [0xD800] (x25519_key bob) = Inl UnicodeEncodeError"
  by (simp add: encrypt_def encode_cp_def surrogate_def)

text \<open>
  C6. Two calls of \<open>encrypt\<close> on the same plaintext and recipient key do not differ. For
  every plaintext \<open>P\<close> that \<open>encode()\<close> accepts and every key \<open>K\<close>, every call, by whatever
  client, returns the same envelope: \<open>encrypted_\<close>, the Base64 of the UTF-8 bytes of \<open>P\<close>,
  \<open>_\<close> and the first eight characters of \<open>K\<close>. Nothing in it is fresh.
\<close>

theorem encrypt_deterministic:
  assumes "list_all scalar P"
  shows "\<exists>raw. str_encode P = Inr raw \<and>
           encrypt self P K = Inr (str ''encrypted_'' @ b64encode raw @ str ''_'' @ take 8 K) \<and>
           encrypt self' P K = Inr (str ''encrypted_'' @ b64encode raw @ str ''_'' @ take 8 K)"
proof -
  obtain raw where raw: "str_encode P = Inr raw"
    using str_encode_total [OF assms] by blast
  show ?thesis using raw encrypt_value [OF raw] by simp
qed

text \<open>
  \<open>alice\<close> twice, and \<open>bob\<close> once, encrypting \<open>"hello"\<close> for \<open>bob\<close>: each call returns
  \<open>encrypted_aGVsbG8=_bob_x255\<close>.
\<close>

theorem encrypt_deterministic_witness:
  "list_all scalar (str ''hello'') \<and>
   str_encode (str ''hello'') = Inr (str ''hello'') \<and>
   encrypt alice (str ''hello'') (x25519_key bob) = Inr (str ''encrypted_aGVsbG8=_bob_x255'') \<and>
   encrypt bob (str ''hello'') (x25519_key bob) = Inr (str ''encrypted_aGVsbG8=_bob_x255'')"
proof -
  have s: "list_all scalar (str ''hello'')" by (simp add: str_def scalar_def)
  have e: "str_encode (str ''hello'') = Inr (str ''hello'')"
    by (simp add: str_def encode_cp_def)
  have b: "str ''encrypted_'' @ b64encode (str ''hello'') @ str ''_'' @ take 8 (x25519_key bob)
             = str ''encrypted_aGVsbG8=_bob_x255''"
    by (simp add: str_def b64_char_def bob_def)
  from encrypt_deterministic [OF s, of alice "x25519_key bob" bob] e
  have "encrypt alice (str ''hello'') (x25519_key bob) =
          Inr (str ''encrypted_'' @ b64encode (str ''hello'') @ str ''_'' @ take 8 (x25519_key bob))"
    and "encrypt bob (str ''hello'') (x25519_key bob) =
          Inr (str ''encrypted_'' @ b64encode (str ''hello'') @ str ''_'' @ take 8 (x25519_key bob))"
    by auto
  then show ?thesis using s e by (simp only: b simp_thms)
qed

text \<open>
  \<open>alice\<close> encrypting \<open>"hello"\<close> for \<open>bob\<close> twice: both calls return the envelope
  \<open>encrypted_aGVsbG8=_bob_x255\<close>.
\<close>

theorem encrypt_repeat_counterexample:
  "encrypt alice (str ''hello'') (x25519_key bob) = Inr (str ''encrypted_aGVsbG8=_bob_x255'') \<and>
   \<not> encrypt alice (str ''hello'') (x25519_key bob)
       \<noteq> encrypt alice (str ''hello'') (x25519_key bob)"
  by (simp add: encrypt_def str_def encode_cp_def b64_char_def bob_def)




text \<open>
  C8. The result of \<open>decrypt\<close> does not depend on the key it is given, nor on the client
  that decrypts: whoever holds a stored envelope reads its content.
\<close>

theorem decrypt_ignores_key: "decrypt self c k1 = decrypt self' c k2"
  by (simp add: decrypt_def)

section \<open>The mock server\<close>

lemma comprehension_filter:
  "comprehension client_id acc ms = acc @ filter (\<lambda>msg. msg_recipient_id msg = client_id) ms"
  by (induction ms arbitrary: acc) simp_all

lemma str_encode_ascii: "list_all (\<lambda>c. c < 128) s \<Longrightarrow> str_encode s = Inr s"
  by (induction s) (simp_all add: encode_cp_def)

lemma alice_encrypts_hello:
  "encrypt alice (str ''hello'') (x25519_key bob) = Inr hello_envelope"
  by (simp add: encrypt_def str_def encode_cp_def b64_char_def bob_def hello_envelope_def)

lemma alice_signs_hello: "sign example_digest alice hello_envelope = Inr hello_signature"
proof -
  have k: "str_encode (ed25519_key alice) = Inr (ed25519_key alice)"
    by (rule str_encode_ascii) (simp add: alice_def str_def)
  have m: "str_encode hello_envelope = Inr hello_envelope"
    by (rule str_encode_ascii) (simp add: hello_envelope_def str_def)
  have "take 64 (ed25519_key alice @ hello_envelope) = hello_signature"
    by (simp add: alice_def hello_envelope_def hello_signature_def str_def)
  then show ?thesis by (simp add: sign_def hmac_hexdigest64_def k m example_digest_def)
qed

lemma registered_clients:
  "clients registered (str ''alice'') = Some (ed25519_key alice)"
  "clients registered (str ''bob'') = Some (ed25519_key bob)"
  "clients registered (str ''charlie'') = None"
  "messages registered = []"
  by (simp_all add: registered_def register_client_def init_server_def str_def)

lemma hello_digest:
  "hmac_hexdigest64 example_digest (ed25519_key alice) hello_envelope = Inr hello_signature"
  using alice_signs_hello by (simp add: sign_def)

lemma after_first_send_eq:
  "after_first_send = registered\<lparr>messages :=
     [\<lparr>msg_id = str ''msg_001'', msg_sender_id = str ''alice'', msg_recipient_id = str ''bob'',
       msg_content = hello_envelope, msg_timestamp = str ''2025-01-01T09:00:00'',
       msg_signature = hello_signature\<rparr>]\<rparr>"
  by (simp add: after_first_send_def send_message_def registered_clients hello_digest)

text \<open>
  C2. A \<open>send_message\<close> whose \<open>sender_id\<close> is not in the registry returns the
  \<open>Error\<close> response \<open>Unknown sender: sender_id\<close> and leaves the server, its message store
  included, as it was.
\<close>

theorem send_message_unknown_sender:
  assumes "clients self sender_id = None"
  shows "send_message h now self sender_id recipient_id content signature message_id =
           (Inr (Error (str ''Unknown sender: '' @ sender_id)), self)"
  using assms by (simp add: send_message_def)

text \<open>\<open>charlie\<close>, who never registered, sends to \<open>bob\<close>.\<close>

theorem send_message_unknown_sender_witness:
  "clients registered (str ''charlie'') = None \<and>
   send_message example_digest (str ''2025-01-01T09:00:00'') registered (str ''charlie'')
     (str ''bob'') hello_envelope hello_signature (str ''msg_001'') =
     (Inr (Error (str ''Unknown sender: charlie'')), registered)"
  using send_message_unknown_sender [OF registered_clients(3), of example_digest
      "str ''2025-01-01T09:00:00''" "str ''bob''" hello_envelope hello_signature "str ''msg_001''"]
    registered_clients(3)
  by (simp add: str_def)

lemma send_message_raises:
  assumes "clients self sender_id = Some public_key"
    and "hmac_hexdigest64 h public_key content = Inl e"
  shows "send_message h now self sender_id recipient_id content signature message_id =
           (Inl e, self)"
  using assms by (simp add: send_message_def)

lemma hmac_hexdigest64_total:
  assumes "list_all scalar key" and "list_all scalar msg"
  shows "\<exists>expected. hmac_hexdigest64 h key msg = Inr expected"
proof -
  obtain k m where "str_encode key = Inr k" "str_encode msg = Inr m"
    using str_encode_total [OF assms(1)] str_encode_total [OF assms(2)] by blast
  then show ?thesis by (simp add: hmac_hexdigest64_def)
qed

lemma send_message_compares:
  assumes "clients self sender_id = Some public_key"
    and "hmac_hexdigest64 h public_key content = Inr expected"
  shows "send_message h now self sender_id recipient_id content signature message_id =
           (if signature \<noteq> expected then (Inr (Error (str ''Invalid signature'')), self)
            else (Inr (MessageSent message_id),
                  self\<lparr>messages := messages self @
                    [\<lparr>msg_id = message_id, msg_sender_id = sender_id,
                      msg_recipient_id = recipient_id, msg_content = content,
                      msg_timestamp = now, msg_signature = signature\<rparr>]\<rparr>))"
  using assms by (simp add: send_message_def)

text \<open>
  C3. For a registered sender whose registered key and encrypted content are strings
  that \<open>encode()\<close> accepts, \<open>send_message\<close> recomputes a signature \<open>expected\<close> from the key
  registered for \<open>sender_id\<close> over the encrypted content: a supplied signature other than
  \<open>expected\<close> gets the \<open>Error\<close> response \<open>Invalid signature\<close> and the server is unchanged;
  the signature \<open>expected\<close> gets \<open>MessageSent\<close> with the supplied \<open>message_id\<close> and exactly
  one record appended to the store, the one built from the arguments.
\<close>

theorem send_message_signature_check:
  assumes "clients self sender_id = Some public_key"
    and "list_all scalar public_key"
    and "list_all scalar content"
  shows "\<exists>expected. hmac_hexdigest64 h public_key content = Inr expected \<and>
           (signature \<noteq> expected \<longrightarrow>
              send_message h now self sender_id recipient_id content signature message_id =
                (Inr (Error (str ''Invalid signature'')), self)) \<and>
           (signature = expected \<longrightarrow>
              send_message h now self sender_id recipient_id content signature message_id =
                (Inr (MessageSent message_id),
                 self\<lparr>messages := messages self @
                   [\<lparr>msg_id = message_id, msg_sender_id = sender_id,
                     msg_recipient_id = recipient_id, msg_content = content,
                     msg_timestamp = now, msg_signature = signature\<rparr>]\<rparr>))"
proof -
  obtain expected where e: "hmac_hexdigest64 h public_key content = Inr expected"
    using hmac_hexdigest64_total [OF assms(2,3)] by blast
  show ?thesis using e send_message_compares [OF assms(1) e] by auto
qed

text \<open>
  \<open>alice\<close> sends the envelope to \<open>bob\<close>, once with a forged signature and once with her
  own.
\<close>

theorem send_message_signature_check_witness:
  "clients registered (str ''alice'') = Some (ed25519_key alice) \<and>
   list_all scalar (ed25519_key alice) \<and>
   list_all scalar hello_envelope \<and>
   send_message example_digest (str ''2025-01-01T09:00:00'') registered (str ''alice'')
     (str ''bob'') hello_envelope (str ''forged'') (str ''msg_001'') =
     (Inr (Error (str ''Invalid signature'')), registered) \<and>
   send_message example_digest (str ''2025-01-01T09:00:00'') registered (str ''alice'')
     (str ''bob'') hello_envelope hello_signature (str ''msg_001'') =
     (Inr (MessageSent (str ''msg_001'')), after_first_send)"
proof -
  have k: "list_all scalar (ed25519_key alice)" by (simp add: alice_def str_def scalar_def)
  have c: "list_all scalar hello_envelope" by (simp add: hello_envelope_def str_def scalar_def)
  have f: "str ''forged'' \<noteq> hello_signature" by (simp add: str_def hello_signature_def)
  have "send_message example_digest (str ''2025-01-01T09:00:00'') registered (str ''alice'')
     (str ''bob'') hello_envelope (str ''forged'') (str ''msg_001'') =
     (Inr (Error (str ''Invalid signature'')), registered)"
    using send_message_signature_check [OF registered_clients(1) k c, of example_digest
        "str ''forged''" "str ''2025-01-01T09:00:00''" "str ''bob''" "str ''msg_001''"]
      f hello_digest by auto
  moreover have "send_message example_digest (str ''2025-01-01T09:00:00'') registered
     (str ''alice'') (str ''bob'') hello_envelope hello_signature (str ''msg_001'') =
     (Inr (MessageSent (str ''msg_001'')), after_first_send)"
    using send_message_signature_check [OF registered_clients(1) k c, of example_digest
        hello_signature "str ''2025-01-01T09:00:00''" "str ''bob''" "str ''msg_001''"]
      hello_digest by (auto simp: after_first_send_eq registered_clients(4))
  ultimately show ?thesis using registered_clients(1) k c by simp
qed

text \<open>
  \<open>alice\<close>, registered, sends as content the one-character string U+D800, a lone
  surrogate: \<open>encrypted_content.encode()\<close> raises \<open>UnicodeEncodeError\<close> where the signature
  is recomputed, so \<open>send_message\<close> returns neither \<open>Error\<close> nor \<open>MessageSent\<close>; the
  server is unchanged.
\<close>

theorem send_message_surrogate_counterexample:
  "send_message example_digest (str ''2025-01-01T09:00:00'') registered (str ''alice'')
     (str ''bob'') [0xD800] hello_signature (str ''msg_002'') =
     (Inl UnicodeEncodeError, registered)"
proof -
  have k: "str_encode (ed25519_key alice) = Inr (ed25519_key alice)"
    by (rule str_encode_ascii) (simp add: alice_def str_def)
  have "hmac_hexdigest64 example_digest (ed25519_key alice) [0xD800] = Inl UnicodeEncodeError"
    by (simp add: hmac_hexdigest64_def k encode_cp_def surrogate_def)
  then show ?thesis by (rule send_message_raises [OF registered_clients(1)])
qed

text \<open>
  C4. \<open>send_message\<close> does not look at the ids of the stored messages. With a
  \<open>message_id\<close> that a stored message already has, a call from a registered sender with
  a valid signature returns \<open>MessageSent\<close> with that id and appends a record with it, so
  the store then holds at least two records with that id.
\<close>

theorem send_message_duplicate_id:
  assumes "clients self sender_id = Some public_key"
    and "hmac_hexdigest64 h public_key content = Inr signature"
    and "message_id \<in> msg_id ` set (messages self)"
  shows "fst (send_message h now self sender_id recipient_id content signature message_id) =
           Inr (MessageSent message_id) \<and>
         map msg_id (messages (snd (send_message h now self sender_id recipient_id content
                                      signature message_id))) =
           map msg_id (messages self) @ [message_id] \<and>
         2 \<le> length (filter (\<lambda>m. msg_id m = message_id)
                (messages (snd (send_message h now self sender_id recipient_id content
                                  signature message_id))))"
proof -
  from assms(3) have "filter (\<lambda>m. msg_id m = message_id) (messages self) \<noteq> []"
    by (auto simp: filter_empty_conv)
  then have "1 \<le> length (filter (\<lambda>m. msg_id m = message_id) (messages self))"
    by (cases "filter (\<lambda>m. msg_id m = message_id) (messages self)") simp_all
  then show ?thesis using assms(1,2) by (simp add: send_message_def)
qed

text \<open>\<open>alice\<close> sends the envelope again as \<open>msg_001\<close>.\<close>

theorem send_message_duplicate_id_witness:
  "clients after_first_send (str ''alice'') = Some (ed25519_key alice) \<and>
   hmac_hexdigest64 example_digest (ed25519_key alice) hello_envelope = Inr hello_signature \<and>
   str ''msg_001'' \<in> msg_id ` set (messages after_first_send) \<and>
   fst (send_message example_digest (str ''2025-01-01T09:05:00'') after_first_send (str ''alice'')
          (str ''bob'') hello_envelope hello_signature (str ''msg_001'')) =
     Inr (MessageSent (str ''msg_001''))"
proof -
  have c: "clients after_first_send (str ''alice'') = Some (ed25519_key alice)"
    by (simp add: after_first_send_eq registered_clients)
  have m: "str ''msg_001'' \<in> msg_id ` set (messages after_first_send)"
    by (simp add: after_first_send_eq)
  show ?thesis
    using send_message_duplicate_id [OF c hello_digest m, of "str ''2025-01-01T09:05:00''" "str ''bob''"]
      c hello_digest m by simp
qed

text \<open>
  The store holds \<open>msg_001\<close>; the second \<open>send_message\<close> with that id returns
  \<open>MessageSent\<close> and the store holds \<open>msg_001\<close> twice.
\<close>

theorem send_message_duplicate_counterexample:
  "map msg_id (messages after_first_send) = [str ''msg_001''] \<and>
   fst (send_message example_digest (str ''2025-01-01T09:05:00'') after_first_send (str ''alice'')
          (str ''bob'') hello_envelope hello_signature (str ''msg_001'')) =
     Inr (MessageSent (str ''msg_001'')) \<and>
   map msg_id (messages (snd (send_message example_digest (str ''2025-01-01T09:05:00'')
          after_first_send (str ''alice'') (str ''bob'') hello_envelope hello_signature
          (str ''msg_001'')))) = [str ''msg_001'', str ''msg_001'']"
  by (simp add: send_message_def after_first_send_eq registered_clients hello_digest)

text \<open>
  C5. \<open>get_messages_for_client\<close> returns the stored records addressed to \<open>client_id\<close>,
  all of them and in the order they were appended (the empty list when there is none),
  and leaves the server unchanged. \<open>get_messages\<close> of \<open>test_demo.py\<close> leaves the server
  unchanged too, but returns the last of these records alone as \<open>MessageReceived\<close>, and
  the \<open>Error\<close> response \<open>No messages found\<close> when there is none.
\<close>

theorem get_messages_reads:
  "get_messages_for_client self client_id =
     (filter (\<lambda>msg. msg_recipient_id msg = client_id) (messages self), self) \<and>
   get_messages self client_id =
     (if filter (\<lambda>msg. msg_recipient_id msg = client_id) (messages self) = []
      then Error (str ''No messages found'')
      else MessageReceived (last (filter (\<lambda>msg. msg_recipient_id msg = client_id) (messages self))),
      self)"
  by (simp add: get_messages_for_client_def get_messages_def comprehension_filter)

text \<open>
  \<open>charlie\<close> has no messages: \<open>get_messages\<close> answers with an \<open>Error\<close> response, not
  with an empty result.
\<close>

theorem get_messages_empty_counterexample:
  "get_messages registered (str ''charlie'') = (Error (str ''No messages found''), registered)"
  by (simp add: get_messages_def registered_clients)

text \<open>
  C9. \<open>register_client\<close> always returns \<open>Registered\<close> with the server's key and stores the
  supplied public key under \<open>client_id\<close>, whether or not \<open>client_id\<close> was registered;
  it changes no other entry and no message, and of two registrations of one \<open>client_id\<close>
  the second key is the one kept.
\<close>

theorem register_client_overwrites:
  "fst (register_client self client_id public_key) =
     Registered (str ''server_ed25519_key_abcdef1234567890'') \<and>
   clients (snd (register_client self client_id public_key)) =
     (clients self)(client_id \<mapsto> public_key) \<and>
   clients (snd (register_client self client_id public_key)) client_id = Some public_key \<and>
   messages (snd (register_client self client_id public_key)) = messages self \<and>
   clients (snd (register_client (snd (register_client self client_id public_key)) client_id
                   second_key)) client_id = Some second_key"
  by (simp add: register_client_def)

text \<open>
  C10. The message store is append-only under \<open>send_message\<close>: whatever the call returns
  or raises, the store before it is a prefix of the store after it, which is longer by
  one record at most.
\<close>

theorem send_message_append_only:
  "prefix (messages self)
     (messages (snd (send_message h now self sender_id recipient_id content signature
                       message_id))) \<and>
   length (messages (snd (send_message h now self sender_id recipient_id content signature
                            message_id))) \<le> length (messages self) + 1"
  by (simp add: send_message_def split: option.splits sum.splits)

end
